theory Spec2Isabelle
  imports Complex_Main
begin

section \<open>Python strings\<close>

text \<open>
  A Python \<open>str\<close> is a sequence of Unicode code points. The argument extractor matches the
  arrow U+2192, so a code point is a natural number here, not an 8-bit \<open>char\<close>.
  \<open>str\<close> turns an ASCII literal into such a sequence.
\<close>

type_synonym pystr = "nat list"

definition str :: "string \<Rightarrow> pystr" where
  "str s = map of_char s"

text \<open>
  \<open>str.isspace\<close> for one code point, which is also what \<open>\s\<close> matches in a \<open>str\<close> pattern:
  the interpreter's table has exactly these 29 code points.
\<close>

definition isspace :: "nat \<Rightarrow> bool" where
  "isspace c \<longleftrightarrow>
     (9 \<le> c \<and> c \<le> 13) \<or> (28 \<le> c \<and> c \<le> 32) \<or> c = 133 \<or> c = 160 \<or> c = 5760 \<or>
     (8192 \<le> c \<and> c \<le> 8202) \<or> c = 8232 \<or> c = 8233 \<or> c = 8239 \<or> c = 8287 \<or> c = 12288"

text \<open>
  The other character tables of the interpreter (letters and digits for \<open>\w\<close>, decimal digits
  for \<open>\d\<close> and \<open>int\<close>, the digits of \<open>str.isdigit\<close>, the lower-case mapping of \<open>str.lower\<close>) are too large to write down and
  change with the Unicode version, so every function that needs one takes them as a parameter.
  \<open>lower\<close> works on whole strings: the mapping of a code point may depend on its neighbours
  and may change the length.
\<close>

record unicode_db =
  isalnum :: "nat \<Rightarrow> bool"
  isdecimal :: "nat \<Rightarrow> bool"
  isdigit :: "nat \<Rightarrow> bool"
  digit_value :: "nat \<Rightarrow> nat"
  lower :: "pystr \<Rightarrow> pystr"

text \<open>The tables for code points below 256, where they are small; above, nothing is a letter.\<close>

definition latin1_isalnum :: "nat \<Rightarrow> bool" where
  "latin1_isalnum c \<longleftrightarrow>
     (48 \<le> c \<and> c \<le> 57) \<or> (65 \<le> c \<and> c \<le> 90) \<or> (97 \<le> c \<and> c \<le> 122) \<or>
     c = 170 \<or> c = 178 \<or> c = 179 \<or> c = 181 \<or> c = 185 \<or> c = 186 \<or> (188 \<le> c \<and> c \<le> 190) \<or>
     (192 \<le> c \<and> c \<le> 214) \<or> (216 \<le> c \<and> c \<le> 246) \<or> (248 \<le> c \<and> c \<le> 255)"

definition latin1_lower :: "nat \<Rightarrow> nat" where
  "latin1_lower c =
     (if (65 \<le> c \<and> c \<le> 90) \<or> (192 \<le> c \<and> c \<le> 214) \<or> (216 \<le> c \<and> c \<le> 222)
      then c + 32 else c)"

definition latin1 :: unicode_db where
  "latin1 = \<lparr> isalnum = latin1_isalnum,
              isdecimal = (\<lambda>c. 48 \<le> c \<and> c \<le> 57),
              isdigit = (\<lambda>c. (48 \<le> c \<and> c \<le> 57) \<or> c = 178 \<or> c = 179 \<or> c = 185),
              digit_value = (\<lambda>c. c - 48),
              lower = map latin1_lower \<rparr>"

text \<open>\<open>s.strip()\<close>: leading and trailing white space removed.\<close>

definition strip :: "pystr \<Rightarrow> pystr" where
  "strip s = rev (dropWhile isspace (rev (dropWhile isspace s)))"

text \<open>
  \<open>xs[start:end]\<close> for any two integers: a negative index counts from the end, and both
  are clamped to the sequence.
\<close>

definition slice_index :: "nat \<Rightarrow> int \<Rightarrow> nat" where
  "slice_index n i = (if i < 0 then nat (max 0 (i + int n)) else min (nat i) n)"

definition py_slice :: "'a list \<Rightarrow> int \<Rightarrow> int \<Rightarrow> 'a list" where
  "py_slice xs start end =
     (let s = slice_index (length xs) start; e = slice_index (length xs) end
      in take (e - s) (drop s xs))"

text \<open>\<open>sub in s\<close> for strings.\<close>

fun contains :: "pystr \<Rightarrow> pystr \<Rightarrow> bool" where
  "contains sub [] \<longleftrightarrow> sub = []"
| "contains sub (c # cs) \<longleftrightarrow> take (length sub) (c # cs) = sub \<or> contains sub cs"

text \<open>
  \<open>s.split(sep)\<close>: the pieces between the occurrences of \<open>sep\<close>, found from the left and not
  overlapping. \<open>acc\<close> holds, reversed, the piece being read. Python refuses an empty
  separator; the source only splits on the literals \<open>'\n'\<close> and \<open>' | '\<close>.
\<close>

function split_from :: "pystr \<Rightarrow> pystr \<Rightarrow> pystr \<Rightarrow> pystr list" where
  "split_from sep acc [] = [rev acc]"
| "split_from sep acc (c # cs) =
     (if sep \<noteq> [] \<and> take (length sep) (c # cs) = sep
      then rev acc # split_from sep [] (drop (length sep) (c # cs))
      else split_from sep (c # acc) cs)"
  by pat_completeness auto
termination
  by (relation "measure (\<lambda>(sep, acc, s). length s)") (auto simp: neq_Nil_conv)

definition split :: "pystr \<Rightarrow> pystr \<Rightarrow> pystr list" where
  "split sep s = split_from sep [] s"

text \<open>
  \<open>s.split(c, 1)\<close> and \<open>s.rsplit(c, 1)\<close> for a one-character separator: split at the first,
  respectively the last, occurrence only.
\<close>

definition split1 :: "nat \<Rightarrow> pystr \<Rightarrow> pystr list" where
  "split1 c s =
     (if c \<in> set s then [takeWhile (\<lambda>x. x \<noteq> c) s, tl (dropWhile (\<lambda>x. x \<noteq> c) s)] else [s])"

definition rsplit1 :: "nat \<Rightarrow> pystr \<Rightarrow> pystr list" where
  "rsplit1 c s =
     (if c \<in> set s
      then [rev (tl (dropWhile (\<lambda>x. x \<noteq> c) (rev s))), rev (takeWhile (\<lambda>x. x \<noteq> c) (rev s))]
      else [s])"

section \<open>Filename classification\<close>

datatype error = ValueError | FileNotFoundError | UnicodeDecodeError | DatabaseError

text \<open>
  \<open>parse_filename\<close>: the extension is cut at the last dot, the name must contain an
  underscore, and the thinker is the lower-cased text before the first one.
\<close>

definition parse_filename :: "unicode_db \<Rightarrow> pystr \<Rightarrow> error + pystr" where
  "parse_filename U filename =
     (let name = hd (rsplit1 46 filename)
      in if 95 \<notin> set name then Inl ValueError
         else let parts = split1 95 name;
                  thinker = lower U (hd parts)
              in Inr thinker)"

datatype file_type = Positions | Quotes | Works | Arguments | Chunks

definition get_file_type :: "unicode_db \<Rightarrow> pystr \<Rightarrow> file_type" where
  "get_file_type U filename =
     (let lower = lower U filename
      in if contains (str ''_positions_'') lower then Positions
         else if contains (str ''_quotes_'') lower then Quotes
         else if contains (str ''_works_'') lower then Works
         else if contains (str ''_arguments_'') lower then Arguments
         else Chunks)"

section \<open>The fixed-window chunker\<close>

definition CHUNK_SIZE :: int where "CHUNK_SIZE = 1000"
definition CHUNK_OVERLAP :: int where "CHUNK_OVERLAP = 100"

text \<open>
  The \<open>while\<close> loop of \<open>chunk_text\<close> with its two variables \<open>start\<close> and \<open>chunks\<close>. Nothing in
  the source makes \<open>start\<close> grow, so the loop is a partial function: \<open>None\<close> is a run that
  never leaves the loop.
\<close>

partial_function (option) chunk_loop ::
  "pystr \<Rightarrow> int \<Rightarrow> int \<Rightarrow> int \<Rightarrow> pystr list \<Rightarrow> pystr list option" where
  "chunk_loop text chunk_size overlap start chunks =
     (if start < int (length text)
      then let end = start + chunk_size;
               chunk = py_slice text start end
           in chunk_loop text chunk_size overlap (end - overlap) (chunks @ [strip chunk])
      else Some chunks)"

declare chunk_loop.simps [code]

definition chunk_text :: "pystr \<Rightarrow> int \<Rightarrow> int \<Rightarrow> pystr list option" where
  "chunk_text text chunk_size overlap =
     map_option (filter (\<lambda>c. c \<noteq> [])) (chunk_loop text chunk_size overlap 0 [])"

text \<open>
  The windows as the specification describes them: window \<open>i\<close> is cut at \<open>i\<close> steps from the
  first start, a step being \<open>chunk_size - overlap\<close>, and trimmed; \<open>window_count\<close> is the
  number of starts that lie before the end of the text.
\<close>

definition window :: "pystr \<Rightarrow> int \<Rightarrow> int \<Rightarrow> int \<Rightarrow> nat \<Rightarrow> pystr" where
  "window text chunk_size overlap start i =
     strip (py_slice text (start + (chunk_size - overlap) * int i)
                          (start + (chunk_size - overlap) * int i + chunk_size))"

definition window_count :: "pystr \<Rightarrow> int \<Rightarrow> int \<Rightarrow> nat" where
  "window_count text step start = nat ((int (length text) - start + step - 1) div step)"

section \<open>The pipe-delimited extractor\<close>

record entry =
  e_thinker :: pystr
  e_content :: pystr
  e_topic :: "pystr option"

text \<open>
  The dictionaries that the extractors build are records; a field carries the key with a
  prefix. Then the \<open>for\<close> loop of \<open>extract_pipe_delimited\<close> over the lines, with the list it
  appends to.
\<close>

fun pipe_loop :: "pystr list \<Rightarrow> entry list \<Rightarrow> entry list" where
  "pipe_loop [] entries = entries"
| "pipe_loop (l # lines) entries =
     (let line = strip l
      in if line = [] \<or> \<not> contains (str '' | '') line then pipe_loop lines entries
         else let parts = split (str '' | '') line
              in if length parts \<ge> 2
                 then pipe_loop lines
                        (entries @
                         [\<lparr> e_thinker = strip (parts ! 0),
                            e_content = strip (parts ! 1),
                            e_topic = (if length parts \<ge> 3 then Some (strip (parts ! 2)) else None) \<rparr>])
                 else pipe_loop lines entries)"

definition extract_pipe_delimited :: "pystr \<Rightarrow> entry list" where
  "extract_pipe_delimited text = pipe_loop (split [10] text) []"

text \<open>
  The extractor in the words of the specification: a line qualifies when, trimmed, it is
  not empty and contains the delimiter; its fields are the trimmed pieces between the
  delimiters; the first three are thinker, content and topic, and a line with fewer than
  two fields is skipped.
\<close>

definition qualifying :: "pystr \<Rightarrow> bool" where
  "qualifying line \<longleftrightarrow> strip line \<noteq> [] \<and> contains (str '' | '') (strip line)"

definition line_fields :: "pystr \<Rightarrow> pystr list" where
  "line_fields line = map strip (split (str '' | '') (strip line))"

fun entry_of_fields :: "pystr list \<Rightarrow> entry option" where
  "entry_of_fields (t # c # tp # others) = Some \<lparr> e_thinker = t, e_content = c, e_topic = Some tp \<rparr>"
| "entry_of_fields [t, c] = Some \<lparr> e_thinker = t, e_content = c, e_topic = None \<rparr>"
| "entry_of_fields fs = None"

definition spec_extract_pipe_delimited :: "pystr \<Rightarrow> entry list" where
  "spec_extract_pipe_delimited text =
     List.map_filter (\<lambda>line. entry_of_fields (line_fields line)) (filter qualifying (split [10] text))"

text \<open>A file of five lines, two of which qualify.\<close>

definition pipe_example :: pystr where
  "pipe_example = str ''immanuel | duty is categorical | ethics'' @ [10] @ [10] @ str ''   '' @ [10] @
     str ''no delimiter here|at all'' @ [10] @ str ''  kant |  two fields  ''"

section \<open>Regular expressions\<close>

text \<open>
  The argument extractor is written with Python's \<open>re\<close> module, a backtracking matcher:
  alternatives are tried from the left, a greedy quantifier tries the longest run first, a
  lazy one the shortest, and the first path that reaches the end of the pattern is the match.
  The patterns of the source use the constructs below; every quantifier in them stands on a
  character class.
\<close>

datatype cls = CSpace | CWord | CDigit | CNot nat | CAny | CDot

fun cls_ok :: "unicode_db \<Rightarrow> cls \<Rightarrow> nat \<Rightarrow> bool" where
  "cls_ok U CSpace c = isspace c"
| "cls_ok U CWord c = (isalnum U c \<or> c = 95)"
| "cls_ok U CDigit c = isdecimal U c"
| "cls_ok U (CNot x) c = (c \<noteq> x)"
| "cls_ok U CAny c = True"
| "cls_ok U CDot c = (c \<noteq> 10)"

text \<open>
  \<open>CAny\<close> is the dot under \<open>re.DOTALL\<close>, \<open>CDot\<close> the dot without it. \<open>Bol\<close> and \<open>EolM\<close> are
  \<open>^\<close> and \<open>$\<close> under \<open>re.MULTILINE\<close>; \<open>Eol\<close> is \<open>$\<close> without it, which also matches before
  a newline that ends the text.
\<close>

datatype re = Lit pystr | Star cls | Plus cls | LazyStar cls | LazyPlus cls
  | Seq re re | Alt re re | Group re | Bol | Eol | EolM

text \<open>
  A position in the text: its index, whether a line starts here, the text from here on, and
  the span of the capture group once it has been closed.
\<close>

record mstate =
  pos :: nat
  at_bol :: bool
  rest :: pystr
  grp :: "(nat \<times> nat) option"

definition start_state :: "pystr \<Rightarrow> mstate" where
  "start_state t = \<lparr> pos = 0, at_bol = True, rest = t, grp = None \<rparr>"

definition advance :: "mstate \<Rightarrow> mstate" where
  "advance st = (case rest st of [] \<Rightarrow> st
     | x # xs \<Rightarrow> st\<lparr> pos := pos st + 1, at_bol := (x = 10), rest := xs \<rparr>)"

fun lit :: "pystr \<Rightarrow> mstate \<Rightarrow> mstate option" where
  "lit [] st = Some st"
| "lit (c # cs) st = (case rest st of [] \<Rightarrow> None
     | x # xs \<Rightarrow> if x = c then lit cs (advance st) else None)"

definition one :: "unicode_db \<Rightarrow> cls \<Rightarrow> mstate \<Rightarrow> mstate option" where
  "one U c st = (case rest st of [] \<Rightarrow> None
     | x # xs \<Rightarrow> if cls_ok U c x then Some (advance st) else None)"

text \<open>
  The matcher takes the rest of the pattern as a continuation \<open>k\<close>; \<open>None\<close> makes it
  backtrack into the next alternative.
\<close>

function greedy ::
  "unicode_db \<Rightarrow> cls \<Rightarrow> mstate \<Rightarrow> (mstate \<Rightarrow> mstate option) \<Rightarrow> mstate option" where
  "greedy U c st k = (case one U c st of None \<Rightarrow> k st
     | Some st' \<Rightarrow> (case greedy U c st' k of Some m \<Rightarrow> Some m | None \<Rightarrow> k st))"
  by pat_completeness auto
termination
  by (relation "measure (\<lambda>(U, c, st, k). length (rest st))")
     (auto simp: one_def advance_def split: list.splits if_splits)

function lazy ::
  "unicode_db \<Rightarrow> cls \<Rightarrow> mstate \<Rightarrow> (mstate \<Rightarrow> mstate option) \<Rightarrow> mstate option" where
  "lazy U c st k = (case k st of Some m \<Rightarrow> Some m
     | None \<Rightarrow> (case one U c st of None \<Rightarrow> None | Some st' \<Rightarrow> lazy U c st' k))"
  by pat_completeness auto
termination
  by (relation "measure (\<lambda>(U, c, st, k). length (rest st))")
     (auto simp: one_def advance_def split: list.splits if_splits)

fun rmatch ::
  "unicode_db \<Rightarrow> re \<Rightarrow> mstate \<Rightarrow> (mstate \<Rightarrow> mstate option) \<Rightarrow> mstate option" where
  "rmatch U (Lit s) st k = (case lit s st of None \<Rightarrow> None | Some st' \<Rightarrow> k st')"
| "rmatch U (Star c) st k = greedy U c st k"
| "rmatch U (Plus c) st k = (case one U c st of None \<Rightarrow> None | Some st' \<Rightarrow> greedy U c st' k)"
| "rmatch U (LazyStar c) st k = lazy U c st k"
| "rmatch U (LazyPlus c) st k = (case one U c st of None \<Rightarrow> None | Some st' \<Rightarrow> lazy U c st' k)"
| "rmatch U (Seq a b) st k = rmatch U a st (\<lambda>st'. rmatch U b st' k)"
| "rmatch U (Alt a b) st k =
     (case rmatch U a st k of Some m \<Rightarrow> Some m | None \<Rightarrow> rmatch U b st k)"
| "rmatch U (Group a) st k = rmatch U a st (\<lambda>st'. k (st'\<lparr> grp := Some (pos st, pos st') \<rparr>))"
| "rmatch U Bol st k = (if at_bol st then k st else None)"
| "rmatch U EolM st k =
     (case rest st of [] \<Rightarrow> k st | x # xs \<Rightarrow> if x = 10 then k st else None)"
| "rmatch U Eol st k =
     (case rest st of [] \<Rightarrow> k st | x # xs \<Rightarrow> if x = 10 \<and> xs = [] then k st else None)"

fun seq :: "re list \<Rightarrow> re" where
  "seq [] = Lit []"
| "seq [r] = r"
| "seq (r # rs) = Seq r (seq rs)"

text \<open>
  Scanning: the leftmost position where the pattern matches, with the position where the
  match ends.
\<close>

function search :: "unicode_db \<Rightarrow> re \<Rightarrow> mstate \<Rightarrow> (nat \<times> mstate) option" where
  "search U r st = (case rmatch U r st Some of Some m \<Rightarrow> Some (pos st, m)
     | None \<Rightarrow> (case rest st of [] \<Rightarrow> None | x # xs \<Rightarrow> search U r (advance st)))"
  by pat_completeness auto
termination
  by (relation "measure (\<lambda>(U, r, st). length (rest st))") (auto simp: advance_def)

definition re_search :: "unicode_db \<Rightarrow> re \<Rightarrow> pystr \<Rightarrow> (nat \<times> mstate) option" where
  "re_search U r t = search U r (start_state t)"

text \<open>
  \<open>m.group(1)\<close>. In every pattern of the source the group lies on every path, so a match
  always has one.
\<close>

definition group1 :: "pystr \<Rightarrow> mstate \<Rightarrow> pystr" where
  "group1 t m = (case grp m of None \<Rightarrow> [] | Some (a, b) \<Rightarrow> take (b - a) (drop a t))"

text \<open>
  \<open>re.split\<close> and \<open>re.findall\<close> for a pattern with one group: the matches are found one after
  the other, each search starting where the last match ended. Python treats a match of the
  empty string specially; no pattern of the source can match it (each begins with a
  literal), and the loops below stop there.
\<close>

function split_loop :: "unicode_db \<Rightarrow> re \<Rightarrow> pystr \<Rightarrow> mstate \<Rightarrow> pystr list" where
  "split_loop U r t st =
     (case search U r st of None \<Rightarrow> [rest st]
      | Some (s, m) \<Rightarrow>
          if length (rest m) < length (rest st)
          then take (s - pos st) (rest st) # group1 t m # split_loop U r t (m\<lparr> grp := None \<rparr>)
          else [rest st])"
  by pat_completeness auto
termination
  by (relation "measure (\<lambda>(U, r, t, st). length (rest st))") auto

definition re_split :: "unicode_db \<Rightarrow> re \<Rightarrow> pystr \<Rightarrow> pystr list" where
  "re_split U r t = split_loop U r t (start_state t)"

function findall_loop :: "unicode_db \<Rightarrow> re \<Rightarrow> pystr \<Rightarrow> mstate \<Rightarrow> pystr list" where
  "findall_loop U r t st =
     (case search U r st of None \<Rightarrow> []
      | Some (s, m) \<Rightarrow>
          if length (rest m) < length (rest st)
          then group1 t m # findall_loop U r t (m\<lparr> grp := None \<rparr>)
          else [])"
  by pat_completeness auto
termination
  by (relation "measure (\<lambda>(U, r, t, st). length (rest st))") auto

definition re_findall :: "unicode_db \<Rightarrow> re \<Rightarrow> pystr \<Rightarrow> pystr list" where
  "re_findall U r t = findall_loop U r t (start_state t)"

section \<open>The argument extractor\<close>

text \<open>The seven patterns of \<open>extract_arguments\<close>, in the order of the source.\<close>

definition header_re :: re where
  "header_re = seq [Lit (str ''###''), Star CSpace, Lit (str ''Argument''), Plus CSpace,
     Plus CDigit, Star CSpace, Lit (str ''(''), Group (Plus (CNot 41)), Lit (str '')'')]"

definition author_re :: re where
  "author_re = seq [Lit (str ''**Author:**''), Star CSpace, Group (Plus CWord)]"

definition premises_re :: re where
  "premises_re = seq [Lit (str ''**Premises:**''), Group (LazyStar CAny),
     Alt (Lit (str ''**'' @ [8594])) Eol]"

definition premise_line_re :: re where
  "premise_line_re = seq [Bol, Lit (str ''-''), Star CSpace, Group (Plus CDot), EolM]"

definition conclusion_re :: re where
  "conclusion_re = seq [Lit (str ''**'' @ [8594]), Star CSpace, Lit (str ''Conclusion:**''),
     Star CSpace, Group (LazyPlus CAny),
     Alt (Lit [10, 10]) (Alt (Lit (str ''*Source'')) Eol)]"

definition source_re :: re where
  "source_re = seq [Lit (str ''*Source:''), Star CSpace, Group (Plus (CNot 124))]"

definition importance_re :: re where
  "importance_re = seq [Lit (str ''Importance:''), Star CSpace, Group (Plus CDigit),
     Lit (str ''/10'')]"

text \<open>
  \<open>int(s)\<close> on a run of decimal digits. The interpreter's configurable limit on the length
  of such a run is not part of the model.
\<close>

definition py_int :: "unicode_db \<Rightarrow> pystr \<Rightarrow> int" where
  "py_int U s = int (foldl (\<lambda>n d. 10 * n + digit_value U d) 0 s)"

text \<open>
  \<open>json.dumps\<close> of a list of strings, with the default \<open>ensure_ascii\<close>: printable ASCII is
  kept, quote and backslash are escaped, the usual control characters have their
  two-character escapes, and everything else is written as \<open>\uXXXX\<close>, as a surrogate pair
  above the basic plane.
\<close>

definition hex_digit :: "nat \<Rightarrow> nat" where
  "hex_digit d = (if d < 10 then 48 + d else 87 + d)"

definition hex4 :: "nat \<Rightarrow> pystr" where
  "hex4 n = [hex_digit (n div 4096 mod 16), hex_digit (n div 256 mod 16),
             hex_digit (n div 16 mod 16), hex_digit (n mod 16)]"

definition json_escape :: "nat \<Rightarrow> pystr" where
  "json_escape c =
     (if c = 34 then [92, 34]
      else if c = 92 then [92, 92]
      else if c = 10 then [92, 110]
      else if c = 13 then [92, 114]
      else if c = 9 then [92, 116]
      else if c = 8 then [92, 98]
      else if c = 12 then [92, 102]
      else if 32 \<le> c \<and> c \<le> 126 then [c]
      else if c < 65536 then [92, 117] @ hex4 c
      else let n = c - 65536
           in [92, 117] @ hex4 (55296 + n div 1024 mod 1024) @
              [92, 117] @ hex4 (56320 + n mod 1024))"

definition json_string :: "pystr \<Rightarrow> pystr" where
  "json_string s = [34] @ concat (map json_escape s) @ [34]"

fun join :: "pystr \<Rightarrow> pystr list \<Rightarrow> pystr" where
  "join sep [] = []"
| "join sep [x] = x"
| "join sep (x # xs) = x @ sep @ join sep xs"

definition json_dumps :: "pystr list \<Rightarrow> pystr" where
  "json_dumps xs = [91] @ join (str '', '') (map json_string xs) @ [93]"

text \<open>The five fields read from one block, each by its own search.\<close>

definition block_author :: "unicode_db \<Rightarrow> pystr \<Rightarrow> pystr option" where
  "block_author U block =
     (case re_search U author_re block of
        Some (s, author_match) \<Rightarrow> Some (lower U (group1 block author_match))
      | None \<Rightarrow> None)"

definition block_premises :: "unicode_db \<Rightarrow> pystr \<Rightarrow> pystr list" where
  "block_premises U block =
     (case re_search U premises_re block of
        Some (s, premises_section) \<Rightarrow>
          (let premise_lines = re_findall U premise_line_re (group1 block premises_section)
           in map strip (filter (\<lambda>p. strip p \<noteq> []) premise_lines))
      | None \<Rightarrow> [])"

definition block_conclusion :: "unicode_db \<Rightarrow> pystr \<Rightarrow> pystr" where
  "block_conclusion U block =
     (case re_search U conclusion_re block of
        Some (s, conclusion_match) \<Rightarrow> strip (group1 block conclusion_match)
      | None \<Rightarrow> [])"

definition block_topic :: "unicode_db \<Rightarrow> pystr \<Rightarrow> pystr option" where
  "block_topic U block =
     (case re_search U source_re block of
        Some (s, source_match) \<Rightarrow> Some (strip (group1 block source_match))
      | None \<Rightarrow> None)"

definition block_importance :: "unicode_db \<Rightarrow> pystr \<Rightarrow> int" where
  "block_importance U block =
     (case re_search U importance_re block of
        Some (s, importance_match) \<Rightarrow> py_int U (group1 block importance_match)
      | None \<Rightarrow> 5)"

record arg_entry =
  a_thinker :: "pystr option"
  a_argument_type :: pystr
  a_premises :: pystr
  a_conclusion :: pystr
  a_topic :: "pystr option"
  a_importance :: int

text \<open>
  The \<open>while\<close> loop over the list that \<open>re.split\<close> returns: a preamble, then a type and a
  block for every header. \<open>i\<close> starts at 1 and moves two at a time.
\<close>

function arg_loop :: "unicode_db \<Rightarrow> pystr list \<Rightarrow> nat \<Rightarrow> arg_entry list \<Rightarrow> arg_entry list" where
  "arg_loop U argument_blocks i entries =
     (if int i < int (length argument_blocks) - 1
      then let argument_type = lower U (strip (argument_blocks ! i));
               block = argument_blocks ! (i + 1);
               premises = block_premises U block;
               conclusion = block_conclusion U block
           in arg_loop U argument_blocks (i + 2)
                (if premises \<noteq> [] \<and> conclusion \<noteq> []
                 then entries @
                      [\<lparr> a_thinker = block_author U block,
                         a_argument_type = argument_type,
                         a_premises = json_dumps premises,
                         a_conclusion = conclusion,
                         a_topic = block_topic U block,
                         a_importance = block_importance U block \<rparr>]
                 else entries)
      else entries)"
  by pat_completeness auto
termination
  by (relation "measure (\<lambda>(U, blocks, i, entries). length blocks - i)") auto

definition extract_arguments :: "unicode_db \<Rightarrow> pystr \<Rightarrow> arg_entry list" where
  "extract_arguments U text = arg_loop U (re_split U header_re text) 1 []"

section \<open>The database, the ingest folder and the console\<close>

text \<open>
  What the program acts on. A file of the ingest folder is known by what reading it gives:
  \<open>decoded\<close> is the result of the strict UTF-8 read (\<open>None\<close> when the bytes do not decode),
  \<open>decoded_ignore\<close> the result of the read with \<open>errors='ignore'\<close>. \<open>folder\<close> maps the name
  of each file to it; \<open>os.path.basename\<close> gives back the name that \<open>os.path.join\<close> was
  given, so files are addressed by name.

  The database is the list of the transactions committed so far, each with its rows, and
  the rows of the open transaction. A row is the table and the tuple of parameters that
  \<open>cursor.execute\<close> receives; \<open>Now\<close> stands for the value of \<open>datetime.now()\<close>. Whether a
  call to the database raises is not decided by the program: \<open>db_fails\<close> says, for the
  \<open>n\<close>-th call, whether it does, and \<open>db_clock\<close> counts the calls. \<open>rollback\<close> and the
  removal of a file that exists are taken to succeed.

  Every \<open>print\<close> appends a message to \<open>console\<close>.
\<close>

datatype sqlval = Null | Text pystr | Integer int | Now

datatype table = T_positions | T_quotes | T_arguments | T_text_chunks | T_texts

type_synonym row = "table \<times> sqlval list"

record disk_file =
  decoded :: "pystr option"
  decoded_ignore :: pystr

datatype message =
    Processing file_type pystr
  | Thinker pystr
  | Source pystr
  | Title pystr
  | Content_length nat
  | Found nat
  | Inserted nat
  | Inserted_work pystr
  | Deleted pystr
  | ERROR error
  | Blank

record world =
  folder :: "pystr \<rightharpoonup> disk_file"
  committed :: "row list list"
  pending :: "row list"
  db_clock :: nat
  db_fails :: "nat \<Rightarrow> bool"
  console :: "message list"

definition print :: "message \<Rightarrow> world \<Rightarrow> world" where
  "print m w = w\<lparr> console := console w @ [m] \<rparr>"

definition read_file :: "bool \<Rightarrow> pystr \<Rightarrow> world \<Rightarrow> error + pystr" where
  "read_file ignore_errors filename w =
     (case folder w filename of
        None \<Rightarrow> Inl FileNotFoundError
      | Some f \<Rightarrow>
          if ignore_errors then Inr (decoded_ignore f)
          else (case decoded f of None \<Rightarrow> Inl UnicodeDecodeError | Some t \<Rightarrow> Inr t))"

definition execute :: "row \<Rightarrow> world \<Rightarrow> error option \<times> world" where
  "execute r w =
     (if db_fails w (db_clock w) then (Some DatabaseError, w\<lparr> db_clock := db_clock w + 1 \<rparr>)
      else (None, w\<lparr> db_clock := db_clock w + 1, pending := pending w @ [r] \<rparr>))"

definition commit :: "world \<Rightarrow> error option \<times> world" where
  "commit w =
     (if db_fails w (db_clock w) then (Some DatabaseError, w\<lparr> db_clock := db_clock w + 1 \<rparr>)
      else (None, w\<lparr> db_clock := db_clock w + 1,
                     committed := committed w @ [pending w], pending := [] \<rparr>))"

definition rollback :: "world \<Rightarrow> world" where
  "rollback w = w\<lparr> pending := [] \<rparr>"

definition remove :: "pystr \<Rightarrow> world \<Rightarrow> error option \<times> world" where
  "remove filename w =
     (if filename \<in> dom (folder w) then (None, w\<lparr> folder := (folder w)(filename := None) \<rparr>)
      else (Some FileNotFoundError, w))"

text \<open>
  A \<open>for\<close> loop whose body builds one row from the loop variable and executes the insert; an
  exception leaves the loop.
\<close>

fun execute_each :: "('a \<Rightarrow> row) \<Rightarrow> 'a list \<Rightarrow> world \<Rightarrow> error option \<times> world" where
  "execute_each row [] w = (None, w)"
| "execute_each row (e # es) w =
     (case execute (row e) w of
        (Some err, w') \<Rightarrow> (Some err, w')
      | (None, w') \<Rightarrow> execute_each row es w')"

text \<open>\<open>x or default\<close> for a string that may be \<open>None\<close>: \<open>None\<close> and \<open>''\<close> are both false.\<close>

definition or_else :: "pystr option \<Rightarrow> pystr \<Rightarrow> pystr" where
  "or_else x d = (case x of None \<Rightarrow> d | Some s \<Rightarrow> if s = [] then d else s)"

definition nullable :: "pystr option \<Rightarrow> sqlval" where
  "nullable x = (case x of None \<Rightarrow> Null | Some s \<Rightarrow> Text s)"

section \<open>Ingesting one file\<close>

definition position_row :: "pystr \<Rightarrow> entry \<Rightarrow> row" where
  "position_row thinker_from_filename e =
     (let thinker = or_else (Some (e_thinker e)) thinker_from_filename
      in (T_positions, [Text thinker, Text (e_content e), nullable (e_topic e), Now]))"

definition ingest_positions_file :: "unicode_db \<Rightarrow> pystr \<Rightarrow> world \<Rightarrow> error option \<times> world" where
  "ingest_positions_file U filename w0 =
     (let w1 = print (Processing Positions filename) w0
      in case parse_filename U filename of
           Inl err \<Rightarrow> (Some err, w1)
         | Inr thinker_from_filename \<Rightarrow>
      (let w2 = print (Thinker thinker_from_filename) w1
       in case read_file False filename w2 of
            Inl err \<Rightarrow> (Some err, w2)
          | Inr text \<Rightarrow>
      (let entries = extract_pipe_delimited text;
           w3 = print (Found (length entries)) w2
       in case execute_each (position_row thinker_from_filename) entries w3 of
            (Some err, w4) \<Rightarrow> (Some err, w4)
          | (None, w4) \<Rightarrow>
      (case commit w4 of
            (Some err, w5) \<Rightarrow> (Some err, w5)
          | (None, w5) \<Rightarrow>
      (let w6 = print (Inserted (length entries)) w5
       in case remove filename w6 of
            (Some err, w7) \<Rightarrow> (Some err, w7)
          | (None, w7) \<Rightarrow> (None, print (Deleted filename) w7))))))"

definition quote_row :: "pystr \<Rightarrow> entry \<Rightarrow> row" where
  "quote_row thinker_from_filename e =
     (let thinker = or_else (Some (e_thinker e)) thinker_from_filename
      in (T_quotes, [Text thinker, Text (e_content e), nullable (e_topic e), Now]))"

definition ingest_quotes_file :: "unicode_db \<Rightarrow> pystr \<Rightarrow> world \<Rightarrow> error option \<times> world" where
  "ingest_quotes_file U filename w0 =
     (let w1 = print (Processing Quotes filename) w0
      in case parse_filename U filename of
           Inl err \<Rightarrow> (Some err, w1)
         | Inr thinker_from_filename \<Rightarrow>
      (let w2 = print (Thinker thinker_from_filename) w1
       in case read_file False filename w2 of
            Inl err \<Rightarrow> (Some err, w2)
          | Inr text \<Rightarrow>
      (let entries = extract_pipe_delimited text;
           w3 = print (Found (length entries)) w2
       in case execute_each (quote_row thinker_from_filename) entries w3 of
            (Some err, w4) \<Rightarrow> (Some err, w4)
          | (None, w4) \<Rightarrow>
      (case commit w4 of
            (Some err, w5) \<Rightarrow> (Some err, w5)
          | (None, w5) \<Rightarrow>
      (let w6 = print (Inserted (length entries)) w5
       in case remove filename w6 of
            (Some err, w7) \<Rightarrow> (Some err, w7)
          | (None, w7) \<Rightarrow> (None, print (Deleted filename) w7))))))"

definition argument_row :: "pystr \<Rightarrow> arg_entry \<Rightarrow> row" where
  "argument_row thinker_from_filename e =
     (let thinker = or_else (a_thinker e) thinker_from_filename
      in (T_arguments,
          [Text thinker, Text (a_argument_type e), Text (a_premises e), Text (a_conclusion e),
           nullable (a_topic e), Integer (a_importance e), Now]))"

definition ingest_arguments_file :: "unicode_db \<Rightarrow> pystr \<Rightarrow> world \<Rightarrow> error option \<times> world" where
  "ingest_arguments_file U filename w0 =
     (let w1 = print (Processing Arguments filename) w0
      in case parse_filename U filename of
           Inl err \<Rightarrow> (Some err, w1)
         | Inr thinker_from_filename \<Rightarrow>
      (let w2 = print (Thinker thinker_from_filename) w1
       in case read_file False filename w2 of
            Inl err \<Rightarrow> (Some err, w2)
          | Inr text \<Rightarrow>
      (let entries = extract_arguments U text;
           w3 = print (Found (length entries)) w2
       in case execute_each (argument_row thinker_from_filename) entries w3 of
            (Some err, w4) \<Rightarrow> (Some err, w4)
          | (None, w4) \<Rightarrow>
      (case commit w4 of
            (Some err, w5) \<Rightarrow> (Some err, w5)
          | (None, w5) \<Rightarrow>
      (let w6 = print (Inserted (length entries)) w5
       in case remove filename w6 of
            (Some err, w7) \<Rightarrow> (Some err, w7)
          | (None, w7) \<Rightarrow> (None, print (Deleted filename) w7))))))"

definition chunk_row :: "pystr \<Rightarrow> pystr \<Rightarrow> nat \<times> pystr \<Rightarrow> row" where
  "chunk_row thinker source_file ic =
     (case ic of (index, chunk_text_content) \<Rightarrow>
        (T_text_chunks,
         [Text thinker, Text source_file, Text chunk_text_content, Integer (int index), Now]))"

text \<open>
  \<open>ingest_chunks_file\<close> calls \<open>chunk_text\<close> with its default window, so its result is an
  option too: \<open>None\<close> would be a run that stays in the chunker for ever.
\<close>

definition ingest_chunks_file ::
  "unicode_db \<Rightarrow> pystr \<Rightarrow> world \<Rightarrow> (error option \<times> world) option" where
  "ingest_chunks_file U filename w0 =
     (let w1 = print (Processing Chunks filename) w0
      in case parse_filename U filename of
           Inl err \<Rightarrow> Some (Some err, w1)
         | Inr thinker \<Rightarrow>
      (let name = hd (rsplit1 46 filename);
           parts = split1 95 name;
           source_file = (if length parts > 1 then parts ! 1 else name);
           w2 = print (Source source_file) (print (Thinker thinker) w1)
       in case read_file True filename w2 of
            Inl err \<Rightarrow> Some (Some err, w2)
          | Inr text \<Rightarrow>
      (case chunk_text text CHUNK_SIZE CHUNK_OVERLAP of
            None \<Rightarrow> None
          | Some chunks \<Rightarrow>
      (let w3 = print (Found (length chunks)) w2
       in case execute_each (chunk_row thinker source_file) (enumerate 0 chunks) w3 of
            (Some err, w4) \<Rightarrow> Some (Some err, w4)
          | (None, w4) \<Rightarrow>
      (case commit w4 of
            (Some err, w5) \<Rightarrow> Some (Some err, w5)
          | (None, w5) \<Rightarrow>
      (let w6 = print (Inserted (length chunks)) w5
       in case remove filename w6 of
            (Some err, w7) \<Rightarrow> Some (Some err, w7)
          | (None, w7) \<Rightarrow> Some (None, print (Deleted filename) w7)))))))"

text \<open>
  The title of a work: the tokens of the name after the first two, without those that are
  all digits, joined by spaces; the whole name when nothing is left.
\<close>

definition py_isdigit :: "unicode_db \<Rightarrow> pystr \<Rightarrow> bool" where
  "py_isdigit U p \<longleftrightarrow> p \<noteq> [] \<and> list_all (isdigit U) p"

definition work_row :: "pystr \<Rightarrow> pystr \<Rightarrow> pystr \<Rightarrow> pystr \<Rightarrow> row" where
  "work_row thinker title filename content =
     (T_texts, [Text thinker, Text title, Text filename, Text content, Now])"

definition ingest_works_file :: "unicode_db \<Rightarrow> pystr \<Rightarrow> world \<Rightarrow> error option \<times> world" where
  "ingest_works_file U filename w0 =
     (let w1 = print (Processing Works filename) w0
      in case parse_filename U filename of
           Inl err \<Rightarrow> (Some err, w1)
         | Inr thinker \<Rightarrow>
      (let name = hd (rsplit1 46 filename);
           parts = split [95] name;
           title_parts = filter (\<lambda>p. \<not> py_isdigit U p) (drop 2 parts);
           title = (if title_parts \<noteq> [] then join (str '' '') title_parts else name);
           w2 = print (Title title) (print (Thinker thinker) w1)
       in case read_file True filename w2 of
            Inl err \<Rightarrow> (Some err, w2)
          | Inr content \<Rightarrow>
      (let w3 = print (Content_length (length content)) w2
       in case execute (work_row thinker title filename content) w3 of
            (Some err, w4) \<Rightarrow> (Some err, w4)
          | (None, w4) \<Rightarrow>
      (case commit w4 of
            (Some err, w5) \<Rightarrow> (Some err, w5)
          | (None, w5) \<Rightarrow>
      (let w6 = print (Inserted_work title) w5
       in case remove filename w6 of
            (Some err, w7) \<Rightarrow> (Some err, w7)
          | (None, w7) \<Rightarrow> (None, print (Deleted filename) w7))))))"

definition ingest_file ::
  "unicode_db \<Rightarrow> pystr \<Rightarrow> world \<Rightarrow> (error option \<times> world) option" where
  "ingest_file U filename w =
     (let file_type = get_file_type U filename
      in if file_type = Positions then Some (ingest_positions_file U filename w)
         else if file_type = Quotes then Some (ingest_quotes_file U filename w)
         else if file_type = Works then Some (ingest_works_file U filename w)
         else if file_type = Arguments then Some (ingest_arguments_file U filename w)
         else ingest_chunks_file U filename w)"

section \<open>The batch\<close>

text \<open>
  The body of the \<open>for\<close> loop of \<open>main\<close>: the \<open>try\<close> around \<open>ingest_file\<close>, and the handler
  that prints the error and rolls back. Then the loop over the names that \<open>main\<close> selected.
\<close>

definition main_step :: "unicode_db \<Rightarrow> pystr \<Rightarrow> world \<Rightarrow> world option" where
  "main_step U filename w =
     (case ingest_file U filename w of
        None \<Rightarrow> None
      | Some (None, w') \<Rightarrow> Some (print Blank w')
      | Some (Some e, w') \<Rightarrow> Some (print Blank (rollback (print (ERROR e) w'))))"

fun main_loop :: "unicode_db \<Rightarrow> pystr list \<Rightarrow> world \<Rightarrow> world option" where
  "main_loop U [] w = Some w"
| "main_loop U (filename # files) w =
     (case main_step U filename w of None \<Rightarrow> None | Some w' \<Rightarrow> main_loop U files w')"

section \<open>Properties of the filename classifier\<close>

lemma rsplit1_concat:
  assumes "c \<in> set s"
  shows "s = rev (tl (dropWhile (\<lambda>x. x \<noteq> c) (rev s))) @ c # rev (takeWhile (\<lambda>x. x \<noteq> c) (rev s))"
proof -
  let ?P = "\<lambda>x. x \<noteq> c"
  from assms have ne: "dropWhile ?P (rev s) \<noteq> []"
    by simp
  then have "\<not> ?P (hd (dropWhile ?P (rev s)))"
    by (rule hd_dropWhile)
  with ne have "dropWhile ?P (rev s) = c # tl (dropWhile ?P (rev s))"
    by (cases "dropWhile ?P (rev s)") simp_all
  then have "rev s = takeWhile ?P (rev s) @ c # tl (dropWhile ?P (rev s))"
    using takeWhile_dropWhile_id [of ?P "rev s"] by simp
  then have "rev (rev s) = rev (takeWhile ?P (rev s) @ c # tl (dropWhile ?P (rev s)))"
    by (rule arg_cong)
  then show ?thesis by simp
qed

lemma set_hd_rsplit1: "set (hd (rsplit1 c s)) \<subseteq> set s"
proof (cases "c \<in> set s")
  case True
  from rsplit1_concat [OF True] have "set (rev (tl (dropWhile (\<lambda>x. x \<noteq> c) (rev s)))) \<subseteq> set s"
    by (metis set_append Un_upper1)
  with True show ?thesis by (simp add: rsplit1_def)
next
  case False
  then show ?thesis by (simp add: rsplit1_def)
qed

lemma takeWhile_hd_rsplit1:
  assumes "u \<in> set (hd (rsplit1 c s))"
  shows "takeWhile (\<lambda>x. x \<noteq> u) (hd (rsplit1 c s)) = takeWhile (\<lambda>x. x \<noteq> u) s"
proof (cases "c \<in> set s")
  case False
  then show ?thesis by (simp add: rsplit1_def)
next
  case True
  define name where "name = rev (tl (dropWhile (\<lambda>x. x \<noteq> c) (rev s)))"
  define ext where "ext = rev (takeWhile (\<lambda>x. x \<noteq> c) (rev s))"
  from True have hd: "hd (rsplit1 c s) = name"
    by (simp add: rsplit1_def name_def)
  from rsplit1_concat [OF True] have s: "s = name @ c # ext"
    by (simp add: name_def ext_def)
  from assms hd have "u \<in> set name" by simp
  then have "takeWhile (\<lambda>x. x \<noteq> u) (name @ c # ext) = takeWhile (\<lambda>x. x \<noteq> u) name"
    by (rule takeWhile_append1) simp
  with s hd show ?thesis by simp
qed

text \<open>
  C8. A filename without an underscore is refused with the error of \<open>parse_filename\<close>, and
  whenever \<open>parse_filename\<close> returns a thinker, it is the lower-cased text before the first
  underscore of the name without its extension, which is also the text before the first
  underscore of the filename itself.
\<close>

theorem parse_filename_thinker:
  "(95 \<notin> set filename \<longrightarrow> parse_filename U filename = Inl ValueError) \<and>
   (\<forall>thinker. parse_filename U filename = Inr thinker \<longrightarrow>
      thinker = lower U (takeWhile (\<lambda>c. c \<noteq> 95) (hd (rsplit1 46 filename))) \<and>
      thinker = lower U (takeWhile (\<lambda>c. c \<noteq> 95) filename))"
proof (intro conjI impI allI)
  assume "95 \<notin> set filename"
  with set_hd_rsplit1 [of 46 filename] have "95 \<notin> set (hd (rsplit1 46 filename))"
    by blast
  then show "parse_filename U filename = Inl ValueError"
    by (simp add: parse_filename_def)
next
  fix thinker
  assume ok: "parse_filename U filename = Inr thinker"
  then have in_name: "95 \<in> set (hd (rsplit1 46 filename))"
    by (simp add: parse_filename_def Let_def split: if_splits)
  with ok show name: "thinker = lower U (takeWhile (\<lambda>c. c \<noteq> 95) (hd (rsplit1 46 filename)))"
    by (simp add: parse_filename_def Let_def split1_def)
  with takeWhile_hd_rsplit1 [OF in_name]
  show "thinker = lower U (takeWhile (\<lambda>c. c \<noteq> 95) filename)"
    by simp
qed

theorem parse_filename_thinker_witness:
  "95 \<notin> set (str ''notes.txt'') \<and> parse_filename latin1 (str ''notes.txt'') = Inl ValueError \<and>
   parse_filename latin1 (str ''Kant_notes_2.txt'') = Inr (str ''kant'') \<and>
   str ''kant'' = lower latin1 (takeWhile (\<lambda>c. c \<noteq> 95) (hd (rsplit1 46 (str ''Kant_notes_2.txt'')))) \<and>
   str ''kant'' = lower latin1 (takeWhile (\<lambda>c. c \<noteq> 95) (str ''Kant_notes_2.txt''))"
  using parse_filename_thinker [of "str ''notes.txt''" latin1]
    parse_filename_thinker [of "str ''Kant_notes_2.txt''" latin1]
  by (simp add: str_def parse_filename_def rsplit1_def split1_def latin1_def latin1_lower_def)

section \<open>Properties of the chunker\<close>

lemma ceil_div_done:
  fixes d s :: int
  assumes "0 < s" "d \<le> 0"
  shows "(d + s - 1) div s \<le> 0"
proof (cases "d + s - 1 < 0")
  case True
  with assms(1) have "(d + s - 1) div s < 0"
    by (simp only: pos_imp_zdiv_neg_iff)
  then show ?thesis by simp
next
  case False
  with assms have "(d + s - 1) div s = 0"
    by (intro div_pos_pos_trivial) simp_all
  then show ?thesis by simp
qed

lemma ceil_div_step:
  fixes d s :: int
  assumes "0 < s" "0 < d"
  shows "(d + s - 1) div s = (d - s + s - 1) div s + 1" and "0 \<le> (d - s + s - 1) div s"
proof -
  have a: "d + s - 1 = d - 1 + s" and b: "d - s + s - 1 = d - 1"
    by simp_all
  from assms(1) have "(d - 1 + s) div s = (d - 1) div s + 1"
    by simp
  then show "(d + s - 1) div s = (d - s + s - 1) div s + 1"
    unfolding a b .
  from assms have "0 \<le> (d - 1) div s"
    by (simp add: pos_imp_zdiv_nonneg_iff)
  then show "0 \<le> (d - s + s - 1) div s"
    unfolding b .
qed

lemma window_count_done:
  assumes "0 < step" "\<not> start < int (length text)"
  shows "window_count text step start = 0"
  using ceil_div_done [of step "int (length text) - start"] assms
  by (simp add: window_count_def)

lemma window_count_step:
  assumes "0 < step" "start < int (length text)"
  shows "window_count text step start = Suc (window_count text step (start + step))"
proof -
  let ?d = "int (length text) - start"
  from assms have d: "0 < ?d" by simp
  have eq: "int (length text) - (start + step) = ?d - step" by simp
  from ceil_div_step [OF assms(1) d] show ?thesis
    unfolding window_count_def eq by (simp only: nat_add_distrib)
qed

lemma chunk_loop_windows:
  assumes "overlap < chunk_size"
  shows "chunk_loop text chunk_size overlap start chunks =
           Some (chunks @ map (window text chunk_size overlap start)
                              [0..<window_count text (chunk_size - overlap) start])"
proof (induction "nat (int (length text) - start)" arbitrary: start chunks rule: less_induct)
  case less
  let ?step = "chunk_size - overlap"
  from assms have step: "0 < ?step" by simp
  show ?case
  proof (cases "start < int (length text)")
    case False
    with step have "window_count text ?step start = 0"
      by (simp add: window_count_done)
    with False show ?thesis
      by (subst chunk_loop.simps) simp
  next
    case True
    let ?next = "start + chunk_size - overlap"
    let ?w = "strip (py_slice text start (start + chunk_size))"
    from True step have "nat (int (length text) - ?next) < nat (int (length text) - start)"
      by simp
    then have IH: "chunk_loop text chunk_size overlap ?next (chunks @ [?w]) =
        Some ((chunks @ [?w]) @ map (window text chunk_size overlap ?next)
                [0..<window_count text ?step ?next])"
      by (rule less)
    have next_eq: "?next = start + ?step" by simp
    from step True have count: "window_count text ?step start = Suc (window_count text ?step ?next)"
      unfolding next_eq by (rule window_count_step)
    have w0: "window text chunk_size overlap start 0 = ?w"
      by (simp add: window_def)
    have shift: "window text chunk_size overlap start (Suc i) = window text chunk_size overlap ?next i" for i
      by (simp add: window_def algebra_simps)
    from True have "chunk_loop text chunk_size overlap start chunks =
        chunk_loop text chunk_size overlap ?next (chunks @ [?w])"
      by (subst chunk_loop.simps) (simp add: Let_def)
    with IH show ?thesis
      by (simp add: count map_upt_Suc w0 shift del: upt_Suc)
  qed
qed


lemma window_count_ceiling:
  assumes "0 < step"
  shows "int (window_count text step 0) = \<lceil>real (length text) / real_of_int step\<rceil>"
proof -
  define n where "n = int (length text)"
  define q where "q = (n + step - 1) div step"
  define r where "r = (n + step - 1) mod step"
  have n: "0 \<le> n" by (simp add: n_def)
  with assms have "0 \<le> q"
    by (simp add: q_def pos_imp_zdiv_nonneg_iff)
  then have count: "int (window_count text step 0) = q"
    by (simp add: window_count_def q_def n_def)
  have x: "n + step - 1 = step * q + r"
    by (simp add: q_def r_def)
  from assms have r: "0 \<le> r" "r < step"
    by (simp_all add: r_def)
  have "(q - 1) * step = step * q - step"
    by (simp add: algebra_simps)
  with x r have lo: "(q - 1) * step < n"
    by linarith
  have "q * step = step * q"
    by simp
  with x r have hi: "n \<le> q * step"
    by linarith
  from lo have "real_of_int ((q - 1) * step) < real_of_int n"
    by (simp only: of_int_less_iff)
  with assms have a: "real_of_int q - 1 < real_of_int n / real_of_int step"
    by (simp add: pos_less_divide_eq)
  from hi have "real_of_int n \<le> real_of_int (q * step)"
    by (simp only: of_int_le_iff)
  with assms have b: "real_of_int n / real_of_int step \<le> real_of_int q"
    by (simp add: pos_divide_le_eq)
  from a b have "\<lceil>real_of_int n / real_of_int step\<rceil> = q"
    by (rule ceiling_unique)
  with count show ?thesis by (simp add: n_def)
qed

text \<open>
  C7. Whenever \<open>overlap < chunk_size\<close>, \<open>chunk_text\<close> returns: its loop leaves with the windows
  \<open>0, \<dots>, n - 1\<close>, whose starts lie \<open>chunk_size - overlap\<close> apart, where \<open>n\<close> is the
  ceiling of the length of the text divided by \<open>chunk_size - overlap\<close>; the chunks returned
  are at most \<open>n\<close>.
\<close>

theorem chunk_text_terminates:
  assumes "overlap < chunk_size"
  shows "\<exists>n chunks.
           chunk_loop text chunk_size overlap 0 [] = Some (map (window text chunk_size overlap 0) [0..<n]) \<and>
           chunk_text text chunk_size overlap = Some chunks \<and>
           length chunks \<le> n \<and>
           int n = \<lceil>real (length text) / real_of_int (chunk_size - overlap)\<rceil>"
proof -
  let ?n = "window_count text (chunk_size - overlap) 0"
  let ?raw = "map (window text chunk_size overlap 0) [0..<?n]"
  from assms have loop: "chunk_loop text chunk_size overlap 0 [] = Some ?raw"
    by (simp add: chunk_loop_windows)
  then have "chunk_text text chunk_size overlap = Some (filter (\<lambda>c. c \<noteq> []) ?raw)"
    by (simp add: chunk_text_def)
  moreover have "length (filter (\<lambda>c. c \<noteq> []) ?raw) \<le> ?n"
    using length_filter_le [of "\<lambda>c. c \<noteq> []" ?raw] by simp
  moreover from assms have "int ?n = \<lceil>real (length text) / real_of_int (chunk_size - overlap)\<rceil>"
    by (simp add: window_count_ceiling)
  ultimately show ?thesis using loop by blast
qed

theorem chunk_text_terminates_witness:
  "(2::int) < 5 \<and>
   (\<exists>n chunks.
      chunk_loop (str ''hello world'') 5 2 0 [] = Some (map (window (str ''hello world'') 5 2 0) [0..<n]) \<and>
      chunk_text (str ''hello world'') 5 2 = Some chunks \<and>
      length chunks \<le> n \<and>
      int n = \<lceil>real (length (str ''hello world'')) / real_of_int (5 - 2)\<rceil>)"
  using chunk_text_terminates [of 2 5 "str ''hello world''"] by simp

lemma default_count: "window_count text 900 0 = (length text + 899) div 900"
proof -
  have "(int (length text) + 899) div 900 = int ((length text + 899) div 900)"
    by (simp add: zdiv_int)
  then show ?thesis
    by (simp add: window_count_def)
qed

text \<open>
  C6. With the default size 1000 and overlap 100, \<open>chunk_text\<close> returns the trimmed windows
  that start at \<open>900 * i\<close> for every \<open>i\<close> with \<open>900 * i\<close> below the length of the text, without
  those that are empty after trimming; for a text of length 2500 the loop produces exactly
  the windows that start at 0, 900 and 1800.
\<close>

theorem chunk_text_default_windows:
  "chunk_text text CHUNK_SIZE CHUNK_OVERLAP = chunk_text text 1000 100 \<and>
   chunk_text text 1000 100 =
     Some (filter (\<lambda>c. c \<noteq> [])
            (map (\<lambda>i. strip (py_slice text (900 * int i) (900 * int i + 1000)))
               [0..<(length text + 899) div 900])) \<and>
   (\<forall>i. (i < (length text + 899) div 900) = (900 * i < length text)) \<and>
   (length text = 2500 \<longrightarrow>
      chunk_loop text 1000 100 0 [] =
        Some [strip (py_slice text 0 1000), strip (py_slice text 900 1900),
              strip (py_slice text 1800 2800)])"
proof (intro conjI impI allI)
  show "chunk_text text CHUNK_SIZE CHUNK_OVERLAP = chunk_text text 1000 100"
    by (simp add: CHUNK_SIZE_def CHUNK_OVERLAP_def)
  have loop: "chunk_loop text 1000 100 0 [] =
      Some (map (window text 1000 100 0) [0..<(length text + 899) div 900])"
    using chunk_loop_windows [of 100 1000 "text" 0 "[]"] by (simp add: default_count)
  have win: "window text 1000 100 0 = (\<lambda>i. strip (py_slice text (900 * int i) (900 * int i + 1000)))"
    by (rule ext) (simp add: window_def)
  from loop show "chunk_text text 1000 100 =
     Some (filter (\<lambda>c. c \<noteq> [])
            (map (\<lambda>i. strip (py_slice text (900 * int i) (900 * int i + 1000)))
               [0..<(length text + 899) div 900]))"
    by (simp add: chunk_text_def win)
  show "(i < (length text + 899) div 900) = (900 * i < length text)" for i
    by arith
  assume "length text = 2500"
  then have "[0..<(length text + 899) div 900] = [0, 1, 2]"
    by (simp add: upt_rec)
  with loop show "chunk_loop text 1000 100 0 [] =
        Some [strip (py_slice text 0 1000), strip (py_slice text 900 1900),
              strip (py_slice text 1800 2800)]"
    by (simp add: win)
qed

theorem chunk_text_default_windows_witness:
  "length (replicate 2500 (97::nat)) = 2500 \<and>
   chunk_loop (replicate 2500 97) 1000 100 0 [] =
     Some [strip (py_slice (replicate 2500 97) 0 1000), strip (py_slice (replicate 2500 97) 900 1900),
           strip (py_slice (replicate 2500 97) 1800 2800)]"
  using chunk_text_default_windows [of "replicate 2500 97"] by simp

section \<open>Properties of the pipe-delimited extractor\<close>

lemma strip_Cons_nonspace: "\<not> isspace c \<Longrightarrow> strip (c # p) \<noteq> []"
  by (simp add: strip_def dropWhile_append)

lemma strip_prefix:
  "dropWhile isspace s = strip s @ rev (takeWhile isspace (rev (dropWhile isspace s)))"
  unfolding strip_def
  by (metis rev_append rev_rev_ident takeWhile_dropWhile_id)

lemma strip_hd_nonspace:
  assumes "strip s \<noteq> []"
  shows "\<not> isspace (hd (strip s))"
proof -
  from assms strip_prefix [of s] have "hd (dropWhile isspace s) = hd (strip s)"
    by (metis hd_append2)
  moreover from assms strip_prefix [of s] have "dropWhile isspace s \<noteq> []"
    by (metis append_is_Nil_conv)
  ultimately show ?thesis
    using hd_dropWhile [of isspace s] by simp
qed

lemma split_from_acc:
  "split_from sep acc s = (rev acc @ hd (split_from sep [] s)) # tl (split_from sep [] s)"
proof (induction s arbitrary: acc)
  case Nil
  show ?case by simp
next
  case (Cons c cs)
  show ?case
  proof (cases "sep \<noteq> [] \<and> take (length sep) (c # cs) = sep")
    case True
    then show ?thesis by simp
  next
    case False
    have "split_from sep acc (c # cs) = split_from sep (c # acc) cs"
      using False by auto
    also have "\<dots> = (rev (c # acc) @ hd (split_from sep [] cs)) # tl (split_from sep [] cs)"
      by (rule Cons.IH)
    finally have a: "split_from sep acc (c # cs) =
        (rev acc @ c # hd (split_from sep [] cs)) # tl (split_from sep [] cs)"
      by simp
    have "split_from sep [] (c # cs) = split_from sep [c] cs"
      using False by auto
    also have "\<dots> = (rev [c] @ hd (split_from sep [] cs)) # tl (split_from sep [] cs)"
      by (rule Cons.IH)
    finally have b: "split_from sep [] (c # cs) = (c # hd (split_from sep [] cs)) # tl (split_from sep [] cs)"
      by simp
    show ?thesis
      unfolding a b by simp
  qed
qed

lemma split_from_nonempty: "split_from sep acc s \<noteq> []"
  by (subst split_from_acc) simp

lemma split_contains_length:
  "sep \<noteq> [] \<Longrightarrow> contains sep s \<Longrightarrow> 2 \<le> length (split_from sep acc s)"
proof (induction s arbitrary: acc)
  case Nil
  then show ?case by simp
next
  case (Cons c cs)
  show ?case
  proof (cases "take (length sep) (c # cs) = sep")
    case True
    with Cons.prems(1) have "split_from sep acc (c # cs) =
        rev acc # split_from sep [] (drop (length sep) (c # cs))"
      by simp
    moreover have "1 \<le> length (split_from sep [] (drop (length sep) (c # cs)))"
      using split_from_nonempty [of sep "[]" "drop (length sep) (c # cs)"]
      by (simp add: Suc_le_eq)
    ultimately show ?thesis by simp
  next
    case False
    with Cons.prems have "contains sep cs" by simp
    with Cons.prems(1) have "2 \<le> length (split_from sep (c # acc) cs)"
      by (rule Cons.IH)
    with False show ?thesis by simp
  qed
qed

lemma sep_eval: "str '' | '' = [32, 124, 32]"
  by (simp add: str_def)

lemma qualifying_fields:
  assumes "qualifying line"
  shows "2 \<le> length (line_fields line)" and "line_fields line ! 0 \<noteq> []"
proof -
  from assms have ne: "strip line \<noteq> []" and c: "contains (str '' | '') (strip line)"
    by (simp_all add: qualifying_def)
  from c show len: "2 \<le> length (line_fields line)"
    using split_contains_length [of "str '' | ''" "strip line" "[]"]
    by (simp add: line_fields_def split_def sep_eval)
  from ne obtain c cs where line: "strip line = c # cs"
    by (cases "strip line") auto
  with strip_hd_nonspace [OF ne] have nsp: "\<not> isspace c" by simp
  then have "c \<noteq> 32" by (auto simp: isspace_def)
  then have "split (str '' | '') (c # cs) = split_from (str '' | '') [c] cs"
    by (auto simp: split_def sep_eval)
  also have "\<dots> = (c # hd (split_from (str '' | '') [] cs)) # tl (split_from (str '' | '') [] cs)"
    by (subst split_from_acc) simp
  finally have "hd (split (str '' | '') (strip line)) = c # hd (split_from (str '' | '') [] cs)"
    by (simp add: line)
  moreover from len have "line_fields line ! 0 = strip (hd (split (str '' | '') (strip line)))"
    by (simp add: line_fields_def hd_conv_nth split_def split_from_nonempty)
  ultimately show "line_fields line ! 0 \<noteq> []"
    using strip_Cons_nonspace [OF nsp] by simp
qed

lemma pipe_loop_refines:
  "pipe_loop lines entries =
     entries @ List.map_filter (\<lambda>line. entry_of_fields (line_fields line)) (filter qualifying lines)"
proof (induction lines arbitrary: entries)
  case Nil
  show ?case by simp
next
  case (Cons l lines)
  show ?case
  proof (cases "qualifying l")
    case False
    then show ?thesis
      by (auto simp: Cons.IH qualifying_def Let_def)
  next
    case True
    let ?parts = "split (str '' | '') (strip l)"
    from qualifying_fields(1) [OF True] have len: "2 \<le> length ?parts"
      by (simp add: line_fields_def)
    have e: "entry_of_fields (line_fields l) =
        Some \<lparr> e_thinker = strip (?parts ! 0), e_content = strip (?parts ! 1),
               e_topic = (if 3 \<le> length ?parts then Some (strip (?parts ! 2)) else None) \<rparr>"
    proof (cases ?parts)
      case Nil
      with len show ?thesis by simp
    next
      case (Cons a as)
      note p1 = this
      show ?thesis
      proof (cases as)
        case Nil
        with p1 len show ?thesis by simp
      next
        case (Cons b bs)
        with p1 show ?thesis
          by (cases bs) (simp_all add: line_fields_def)
      qed
    qed
    from True len show ?thesis
      by (simp add: Cons.IH qualifying_def Let_def e)
  qed
qed


lemma split_no_newline: "10 \<notin> set s \<Longrightarrow> split_from [10] acc s = [rev acc @ s]"
  by (induction s arbitrary: acc) auto

lemma entry_of_fields_thinker:
  "entry_of_fields fs = Some e \<Longrightarrow> e_thinker e = fs ! 0"
  by (induction fs rule: entry_of_fields.induct) auto

lemma extract_refines: "extract_pipe_delimited text = spec_extract_pipe_delimited text"
  by (simp add: extract_pipe_delimited_def spec_extract_pipe_delimited_def pipe_loop_refines)

text \<open>
  C5. \<open>extract_pipe_delimited\<close> returns, in the order of the lines, one entry for every line
  that is not empty after trimming and contains \<open>" | "\<close>, and nothing for the other lines.
  Such a line always has at least two fields; the entry takes the first three (thinker,
  content, topic), the topic is null when there are exactly two, and further fields are
  ignored.
\<close>

theorem extract_pipe_delimited_lines:
  "extract_pipe_delimited text = spec_extract_pipe_delimited text \<and>
   (\<forall>line. qualifying line \<longrightarrow> 2 \<le> length (line_fields line)) \<and>
   (\<forall>line t c. 10 \<notin> set line \<and> qualifying line \<and> line_fields line = [t, c] \<longrightarrow>
      extract_pipe_delimited line = [\<lparr> e_thinker = t, e_content = c, e_topic = None \<rparr>]) \<and>
   (\<forall>line t c tp others. 10 \<notin> set line \<and> qualifying line \<and> line_fields line = t # c # tp # others \<longrightarrow>
      extract_pipe_delimited line = [\<lparr> e_thinker = t, e_content = c, e_topic = Some tp \<rparr>]) \<and>
   (\<forall>line. 10 \<notin> set line \<and> \<not> qualifying line \<longrightarrow> extract_pipe_delimited line = [])"
proof -
  have one: "spec_extract_pipe_delimited line =
      List.map_filter (\<lambda>l. entry_of_fields (line_fields l)) (filter qualifying [line])"
    if "10 \<notin> set line" for line
    using that by (simp add: spec_extract_pipe_delimited_def split_def split_no_newline)
  show ?thesis
    by (auto simp: extract_refines one qualifying_fields(1))
qed

lemmas pipe_eval = str_def strip_def isspace_def split_def qualifying_def line_fields_def
  extract_pipe_delimited_def spec_extract_pipe_delimited_def

theorem extract_pipe_delimited_lines_witness:
  "extract_pipe_delimited pipe_example =
     [\<lparr> e_thinker = str ''immanuel'', e_content = str ''duty is categorical'', e_topic = Some (str ''ethics'') \<rparr>,
      \<lparr> e_thinker = str ''kant'', e_content = str ''two fields'', e_topic = None \<rparr>] \<and>
   qualifying (str '' a | b '') \<and> 10 \<notin> set (str '' a | b '') \<and>
   line_fields (str '' a | b '') = [str ''a'', str ''b''] \<and>
   extract_pipe_delimited (str '' a | b '') = [\<lparr> e_thinker = str ''a'', e_content = str ''b'', e_topic = None \<rparr>] \<and>
   qualifying (str ''a | b | c | d'') \<and>
   line_fields (str ''a | b | c | d'') = [str ''a'', str ''b'', str ''c'', str ''d''] \<and>
   extract_pipe_delimited (str ''a | b | c | d'') = [\<lparr> e_thinker = str ''a'', e_content = str ''b'', e_topic = Some (str ''c'') \<rparr>] \<and>
   \<not> qualifying (str ''a|b'') \<and> extract_pipe_delimited (str ''a|b'') = [] \<and>
   \<not> qualifying (str ''   '') \<and> extract_pipe_delimited (str ''   '') = []"
  using extract_pipe_delimited_lines [of pipe_example]
    extract_pipe_delimited_lines [of "str '' a | b ''"]
  by (simp add: pipe_example_def pipe_eval)

text \<open>
  C9. Every entry of \<open>extract_pipe_delimited\<close> has a thinker that is not the empty string,
  so \<open>e.get('thinker') or thinker_from_filename\<close> is the thinker of the entry: the rows that
  \<open>ingest_positions_file\<close> and \<open>ingest_quotes_file\<close> insert never carry the thinker of the
  filename.
\<close>

theorem pipe_thinker_never_empty:
  "\<forall>e \<in> set (extract_pipe_delimited text).
     e_thinker e \<noteq> [] \<and>
     or_else (Some (e_thinker e)) thinker_from_filename = e_thinker e \<and>
     position_row thinker_from_filename e =
       (T_positions, [Text (e_thinker e), Text (e_content e), nullable (e_topic e), Now]) \<and>
     quote_row thinker_from_filename e =
       (T_quotes, [Text (e_thinker e), Text (e_content e), nullable (e_topic e), Now])"
proof
  fix e
  assume "e \<in> set (extract_pipe_delimited text)"
  then obtain line where "qualifying line" and "entry_of_fields (line_fields line) = Some e"
    by (auto simp: extract_refines spec_extract_pipe_delimited_def map_filter_def)
  then have "e_thinker e \<noteq> []"
    using qualifying_fields(2) [of line] entry_of_fields_thinker [of "line_fields line" e] by simp
  then show "e_thinker e \<noteq> [] \<and>
     or_else (Some (e_thinker e)) thinker_from_filename = e_thinker e \<and>
     position_row thinker_from_filename e =
       (T_positions, [Text (e_thinker e), Text (e_content e), nullable (e_topic e), Now]) \<and>
     quote_row thinker_from_filename e =
       (T_quotes, [Text (e_thinker e), Text (e_content e), nullable (e_topic e), Now])"
    by (simp add: or_else_def position_row_def quote_row_def)
qed

theorem pipe_thinker_never_empty_witness:
  "\<lparr> e_thinker = str ''immanuel'', e_content = str ''duty is categorical'', e_topic = Some (str ''ethics'') \<rparr>
     \<in> set (extract_pipe_delimited pipe_example) \<and>
   str ''immanuel'' \<noteq> [] \<and>
   position_row (str ''kant'')
     \<lparr> e_thinker = str ''immanuel'', e_content = str ''duty is categorical'', e_topic = Some (str ''ethics'') \<rparr> =
     (T_positions, [Text (str ''immanuel''), Text (str ''duty is categorical''), Text (str ''ethics''), Now])"
  using pipe_thinker_never_empty [of pipe_example "str ''kant''"]
  by (simp add: pipe_example_def pipe_eval nullable_def)

end
